theory Spec2Isabelle
  imports Main
begin

section \<open>Strings\<close>

text \<open>
  A Python \<open>str\<close> is modelled as a \<open>string\<close> whose characters are read as the code
  points 0..255 (Latin-1). Header and cookie names reach the program in exactly that
  range; for the form input the model covers the inputs written in that alphabet.
\<close>

definition isspace :: "char \<Rightarrow> bool" where
  \<comment> \<open>the characters removed by \<open>str.strip()\<close>: TAB..CR, FS..US, space, NEL, NBSP\<close>
  "isspace c =
     (let n = (of_char c :: nat)
      in (9 \<le> n \<and> n \<le> 13) \<or> (28 \<le> n \<and> n \<le> 32) \<or> n = 133 \<or> n = 160)"

definition strip_chars :: "(char \<Rightarrow> bool) \<Rightarrow> string \<Rightarrow> string" where
  \<comment> \<open>\<open>s.strip(chars)\<close>: drop the characters of the class at both ends\<close>
  "strip_chars P s = rev (dropWhile P (rev (dropWhile P s)))"

definition strip :: "string \<Rightarrow> string" where
  "strip s = strip_chars isspace s"

definition is_upper :: "char \<Rightarrow> bool" where
  \<comment> \<open>the characters changed by \<open>str.lower()\<close>: A..Z and the Latin-1 capitals\<close>
  "is_upper c =
     (let n = (of_char c :: nat)
      in (65 \<le> n \<and> n \<le> 90) \<or> (192 \<le> n \<and> n \<le> 222 \<and> n \<noteq> 215))"

definition lower_char :: "char \<Rightarrow> char" where
  \<comment> \<open>a capital and its small letter differ by 32, that is by bit 5\<close>
  "lower_char c =
     (if is_upper c
      then (case c of Char b0 b1 b2 b3 b4 b5 b6 b7 \<Rightarrow> Char b0 b1 b2 b3 b4 True b6 b7)
      else c)"

definition lower :: "string \<Rightarrow> string" where
  "lower s = map lower_char s"

definition startswith :: "string \<Rightarrow> string \<Rightarrow> bool" where
  "startswith s p = (take (length p) s = p)"

fun replace_first :: "string \<Rightarrow> string \<Rightarrow> string \<Rightarrow> string" where
  \<comment> \<open>\<open>s.replace(old, new, 1)\<close> for a non-empty \<open>old\<close>\<close>
  "replace_first old new [] = []"
| "replace_first old new (c # cs) =
     (if startswith (c # cs) old then new @ drop (length old) (c # cs)
      else c # replace_first old new cs)"

section \<open>What the program takes from outside\<close>

text \<open>
  An exception is carried as its message. The library functions and the network are
  parameters of the model, collected in one record:
  \<^item> \<open>urlparse\<close> returns the \<open>netloc\<close> and \<open>path\<close> of a URL, or raises \<open>ValueError\<close>;
  \<^item> \<open>set_order a b\<close> tells whether a set built as \<open>{a}\<close> followed by \<open>add(b)\<close>
    iterates \<open>a\<close> before \<open>b\<close>: Python fixes no iteration order for a set, and string
    hashes are salted per process;
  \<^item> \<open>re_search pat text\<close> is \<open>re.search(pat, text, re.I)\<close> read as a truth value;
  \<^item> \<open>urljoin\<close> is \<open>urllib.parse.urljoin\<close>;
  \<^item> \<open>http_get hist u\<close> is the outcome of \<open>requests.get(u, headers=UA, timeout=8)\<close>
    (redirects followed) when the URLs in \<open>hist\<close> have been requested before it, oldest
    first: a response, or an exception.

  Two attributes of a response are computed when they are read and may raise: \<open>r.text\<close>
  decodes the body with the character set that the response declares (\<open>UnicodeError\<close>
  for a codec that does not decode text), and \<open>r.json()\<close> parses it. Inside the
  \<open>try\<close> block of the main loop, the request and \<open>r.text\<close> are the calls that raise;
  \<open>urljoin\<close> is applied to the URL of a response that was received and is taken as
  total. Every function that makes a request returns the history extended by it.
\<close>

type_synonym exn = string

type_synonym history = "string list"

record parse_result =
  netloc :: string
  path :: string

datatype json =
    JNull
  | JBool bool
  | JNum int
  | JStr string
  | JList "json list"
  | JDict "(string \<times> json) list"

record response =
  r_url :: string
  r_status_code :: int
  r_headers :: "(string \<times> string) list"
  r_cookies :: "(string \<times> string) list"
  r_text :: "exn + string"
  r_json :: "exn + json"

record env =
  urlparse :: "string \<Rightarrow> exn + parse_result"
  set_order :: "string \<Rightarrow> string \<Rightarrow> bool"
  re_search :: "string \<Rightarrow> string \<Rightarrow> bool"
  urljoin :: "string \<Rightarrow> string \<Rightarrow> string"
  http_get :: "history \<Rightarrow> string \<Rightarrow> exn + response"

section \<open>normalize_candidates\<close>

definition has_scheme :: "string \<Rightarrow> bool" where
  \<comment> \<open>\<open>re.match(r"^https?://", raw, re.I)\<close>\<close>
  "has_scheme raw = (startswith (lower raw) ''http://'' \<or> startswith (lower raw) ''https://'')"

definition set_iter :: "env \<Rightarrow> string \<Rightarrow> string \<Rightarrow> string list" where
  \<comment> \<open>iteration over the set \<open>{a}\<close> after \<open>add(b)\<close>\<close>
  "set_iter env a b = (if a = b then [a] else if set_order env a b then [a, b] else [b, a])"

fun uniq_loop :: "string set \<Rightarrow> string list \<Rightarrow> string list \<Rightarrow> string list" where
  \<comment> \<open>the loop over \<open>candidates\<close> with its two variables \<open>seen\<close> and \<open>uniq\<close>\<close>
  "uniq_loop seen uniq [] = uniq"
| "uniq_loop seen uniq (u # us) =
     (if u \<notin> seen then uniq_loop (insert u seen) (uniq @ [u]) us
      else uniq_loop seen uniq us)"

definition host_urls :: "string \<Rightarrow> string list" where
  \<comment> \<open>the two URLs added to \<open>candidates\<close> for the host \<open>h\<close>\<close>
  "host_urls h = [''https://'' @ h @ ''/'', ''http://'' @ h @ ''/'']"

definition other_host :: "string \<Rightarrow> string" where
  \<comment> \<open>the second element put into \<open>base_hosts\<close>\<close>
  "other_host host =
     (if \<not> startswith host ''www.'' then ''www.'' @ host
      else replace_first ''www.'' '''' host)"

definition host_of :: "parse_result \<Rightarrow> string" where
  \<comment> \<open>\<open>(p.netloc or p.path).strip("/")\<close>\<close>
  "host_of p =
     strip_chars (\<lambda>c. c = CHR ''/'') (if netloc p \<noteq> [] then netloc p else path p)"

definition normalize_candidates :: "env \<Rightarrow> string \<Rightarrow> exn + string list" where
  "normalize_candidates env raw0 =
     (let raw = strip raw0 in
      if raw = [] then Inr []
      else
        let raw_https = (if \<not> has_scheme raw then ''https://'' @ raw else raw) in
        case urlparse env raw_https of
          Inl e \<Rightarrow> Inl e
        | Inr p \<Rightarrow>
            let host = host_of p in
            if host = [] then Inr []
            else
              let base_hosts = set_iter env host (other_host host);
                  candidates = concat (map host_urls base_hosts)
              in Inr (uniq_loop {} [] candidates))"

section \<open>Signals\<close>

datatype confidence = High | Medium | Low

text \<open>
  The entries of \<open>reasons\<close> are sentences built from a few values; the model keeps the
  kind of sentence and the values put into it.
\<close>

datatype evidence =
    HeadersNote "string list"      \<comment> \<open>X-Shopify-* headers found, the first five names\<close>
  | CookiesNote "string list"      \<comment> \<open>Shopify cookies found, the first six names\<close>
  | MarkersNote "string list"      \<comment> \<open>the body patterns that matched\<close>
  | CartOk string                  \<comment> \<open>the cart URL answered with Shopify's JSON\<close>
  | CartUnconfirmed int string     \<comment> \<open>/cart.js did not confirm: status and content type\<close>
  | CartError exn                  \<comment> \<open>/cart.js raised\<close>
  | NoSigns string                 \<comment> \<open>no sign of Shopify at the final URL\<close>
  | OpenFailed string exn          \<comment> \<open>the candidate could not be opened\<close>

type_synonym verdict = "bool \<times> confidence \<times> string option \<times> evidence list"

definition bslash :: char where
  "bslash = CHR 0x5C"

definition BODY_MARKERS :: "string list" where
  "BODY_MARKERS =
     [''cdn'' @ [bslash] @ ''.shopify'' @ [bslash] @ ''.com'',
      [bslash] @ ''bmyshopify'' @ [bslash] @ ''.com'' @ [bslash] @ ''b'',
      ''window'' @ [bslash] @ ''.Shopify'' @ [bslash] @ ''b'',
      ''Shopify'' @ [bslash] @ ''.theme'' @ [bslash] @ ''b'',
      ''shopify-digital-wallet'']"

definition check_body_markers :: "env \<Rightarrow> string \<Rightarrow> string list" where
  "check_body_markers env txt = filter (\<lambda>pat. re_search env pat txt) BODY_MARKERS"

definition ci_get :: "(string \<times> string) list \<Rightarrow> string \<Rightarrow> string \<Rightarrow> string" where
  \<comment> \<open>\<open>headers.get(name, default)\<close> on the case-insensitive dictionary of headers\<close>
  "ci_get hs name dflt =
     (case find (\<lambda>kv. lower (fst kv) = lower name) hs of
        None \<Rightarrow> dflt
      | Some kv \<Rightarrow> snd kv)"

fun has_cart_keys :: "json \<Rightarrow> bool" where
  \<comment> \<open>\<open>isinstance(data, dict)\<close> and one of the three keys in it\<close>
  "has_cart_keys (JDict kvs) =
     (''items'' \<in> set (map fst kvs) \<or> ''token'' \<in> set (map fst kvs)
      \<or> ''attributes'' \<in> set (map fst kvs))"
| "has_cart_keys _ = False"

definition try_cart_json :: "env \<Rightarrow> history \<Rightarrow> string \<Rightarrow> (bool \<times> evidence) \<times> history" where
  "try_cart_json env hist final_url =
     (let cart_url = urljoin env final_url ''/cart.js'' in
      ((case http_get env hist cart_url of
          Inl e \<Rightarrow> (False, CartError e)
        | Inr r \<Rightarrow>
            let ctype = lower (ci_get (r_headers r) ''Content-Type'' []) in
            if r_status_code r = 200 \<and> startswith ctype ''application/json''
            then (case r_json r of
                    Inl e \<Rightarrow> (False, CartError e)
                  | Inr data \<Rightarrow>
                      if has_cart_keys data then (True, CartOk cart_url)
                      else (False, CartUnconfirmed (r_status_code r) ctype))
            else (False, CartUnconfirmed (r_status_code r) ctype)),
       hist @ [cart_url]))"

definition shopify_headers :: "response \<Rightarrow> string list" where
  "shopify_headers r =
     filter (\<lambda>k. startswith (lower k) ''x-shopify-'') (map fst (r_headers r))"

definition shopify_cookies :: "response \<Rightarrow> string list" where
  "shopify_cookies r =
     filter (\<lambda>n. startswith (lower n) ''_shopify'') (map fst (r_cookies r))"

section \<open>is_shopify_site\<close>

text \<open>
  \<open>inspect_response\<close> is the body of the \<open>try\<close> after \<open>fetch\<close> has returned the
  response \<open>r\<close>. It ends in one of three ways: an exception, raised when \<open>reasons\<close>
  has the value given with it; a \<open>return\<close> of the function; or the end of the body,
  with the new \<open>reasons\<close>.
\<close>

datatype outcome =
    Raised exn "evidence list"
  | Returned verdict
  | FellThrough "evidence list"

definition inspect_response ::
  "env \<Rightarrow> history \<Rightarrow> response \<Rightarrow> evidence list \<Rightarrow> outcome \<times> history" where
  "inspect_response env hist r reasons =
     (let final_url = r_url r in
      if shopify_headers r \<noteq> [] then
        (let reasons1 = reasons @ [HeadersNote (take 5 (shopify_headers r))] in
         case try_cart_json env hist final_url of
           ((ok_cart, cart_reason), hist') \<Rightarrow>
             (Returned (True, High, Some final_url,
                        if ok_cart then reasons1 @ [cart_reason] else reasons1), hist'))
      else
        (let reasons1 = (if shopify_cookies r \<noteq> []
                         then reasons @ [CookiesNote (take 6 (shopify_cookies r))]
                         else reasons)
         in case r_text r of
              Inl e \<Rightarrow> (Raised e reasons1, hist)
            | Inr txt \<Rightarrow>
                (let marker_hits = check_body_markers env txt;
                     reasons2 = (if marker_hits \<noteq> [] then reasons1 @ [MarkersNote marker_hits]
                                 else reasons1)
                 in case try_cart_json env hist final_url of
                      ((ok_cart, cart_reason), hist') \<Rightarrow>
                        if ok_cart then
                          (Returned (True, High, Some final_url, reasons2 @ [cart_reason]), hist')
                        else if shopify_cookies r \<noteq> [] \<and> marker_hits \<noteq> [] then
                          (Returned (True, High, Some final_url, reasons2 @ [cart_reason]), hist')
                        else if shopify_cookies r \<noteq> [] \<or> marker_hits \<noteq> [] then
                          (Returned (True, Medium, Some final_url, reasons2 @ [cart_reason]), hist')
                        else (FellThrough (reasons2 @ [NoSigns final_url]), hist'))))"

definition fetch :: "env \<Rightarrow> history \<Rightarrow> string \<Rightarrow> (exn + response) \<times> history" where
  "fetch env hist url = (http_get env hist url, hist @ [url])"

text \<open>
  One pass of the loop body, with its \<open>except\<close> clause, either returns from the
  function (\<open>Inl\<close> of the verdict) or goes on to the next candidate with the new
  \<open>reasons\<close> (\<open>Inr\<close>).
\<close>

definition try_candidate ::
  "env \<Rightarrow> string \<Rightarrow> evidence list \<Rightarrow> history \<Rightarrow> (verdict + evidence list) \<times> history" where
  "try_candidate env candidate reasons hist =
     (case fetch env hist candidate of
        (Inl e, hist1) \<Rightarrow> (Inr (reasons @ [OpenFailed candidate e]), hist1)
      | (Inr r, hist1) \<Rightarrow>
          (case inspect_response env hist1 r reasons of
             (Raised e reasons', hist2) \<Rightarrow> (Inr (reasons' @ [OpenFailed candidate e]), hist2)
           | (Returned v, hist2) \<Rightarrow> (Inl v, hist2)
           | (FellThrough reasons', hist2) \<Rightarrow> (Inr reasons', hist2)))"

fun candidates_loop ::
  "env \<Rightarrow> string list \<Rightarrow> evidence list \<Rightarrow> history \<Rightarrow> verdict \<times> history" where
  "candidates_loop env [] reasons hist = ((False, Low, None, reasons), hist)"
| "candidates_loop env (candidate # rest) reasons hist =
     (case try_candidate env candidate reasons hist of
        (Inl v, hist') \<Rightarrow> (v, hist')
      | (Inr reasons', hist') \<Rightarrow> candidates_loop env rest reasons' hist')"

definition is_shopify_site :: "env \<Rightarrow> string \<Rightarrow> exn + verdict \<times> history" where
  \<comment> \<open>\<open>Inl\<close>: the exception of \<open>urlparse\<close>, raised outside the \<open>try\<close>\<close>
  "is_shopify_site env input_url =
     (case normalize_candidates env input_url of
        Inl e \<Rightarrow> Inl e
      | Inr cs \<Rightarrow> Inr (candidates_loop env cs [] []))"

text \<open>
  The run reaches a candidate when every candidate before it went on to the next one;
  \<open>passed_over\<close> gives the \<open>reasons\<close> and the history with which it is reached.
\<close>

fun passed_over ::
  "env \<Rightarrow> string list \<Rightarrow> evidence list \<Rightarrow> history \<Rightarrow> (evidence list \<times> history) option" where
  "passed_over env [] reasons hist = Some (reasons, hist)"
| "passed_over env (c # cs) reasons hist =
     (case try_candidate env c reasons hist of
        (Inl v, hist') \<Rightarrow> None
      | (Inr reasons', hist') \<Rightarrow> passed_over env cs reasons' hist')"

section \<open>A sample environment\<close>

text \<open>
  The theorems below hold for every environment. To run the definitions on concrete
  inputs, \<open>sample_env\<close> fixes one: a URL parser for URLs of the shape
  \<open>scheme://netloc/path\<close>, a set that iterates in insertion order, a pattern search that
  knows the one pattern without metacharacters, and a small network of six shops.
\<close>

definition sample_urlparse :: "string \<Rightarrow> exn + parse_result" where
  "sample_urlparse u =
     (let rest = drop 3 (dropWhile (\<lambda>c. c \<noteq> CHR '':'') u);
          nl = takeWhile (\<lambda>c. c \<noteq> CHR ''/'') rest
      in if CHR ''['' \<in> set nl \<and> CHR '']'' \<notin> set nl then Inl ''Invalid IPv6 URL''
         else Inr \<lparr>netloc = nl, path = dropWhile (\<lambda>c. c \<noteq> CHR ''/'') rest\<rparr>)"

fun contains :: "string \<Rightarrow> string \<Rightarrow> bool" where
  "contains [] p = (p = [])"
| "contains (c # cs) p = (startswith (c # cs) p \<or> contains cs p)"

definition sample_re_search :: "string \<Rightarrow> string \<Rightarrow> bool" where
  "sample_re_search pat txt = (pat = ''shopify-digital-wallet'' \<and> contains (lower txt) pat)"

definition sample_urljoin :: "string \<Rightarrow> string \<Rightarrow> string" where
  \<comment> \<open>for a base that ends with its root path and a reference that starts with a slash\<close>
  "sample_urljoin base ref = butlast base @ ref"

definition page :: "string \<Rightarrow> (string \<times> string) list \<Rightarrow> (string \<times> string) list \<Rightarrow> string \<Rightarrow> response" where
  "page u hs cs txt =
     \<lparr>r_url = u, r_status_code = 200, r_headers = hs, r_cookies = cs, r_text = Inr txt,
      r_json = Inl ''Expecting value''\<rparr>"

definition shop_h :: response where
  \<comment> \<open>a shop that shows all three signals\<close>
  "shop_h = page ''https://h.io/'' [(''X-Shopify-Stage'', ''production'')]
              [(''_shopify_y'', ''1'')] ''<div id=shopify-digital-wallet>''"

definition cart_h :: response where
  "cart_h = (page ''https://h.io/cart.js'' [(''Content-Type'', ''text/html'')] [] ''Not found'')
              \<lparr>r_status_code := 404\<rparr>"

definition shop_c :: response where
  \<comment> \<open>a shop that shows no signal but answers /cart.js\<close>
  "shop_c = page ''https://c.io/'' [(''Server'', ''nginx'')] [] ''<h1>Hello</h1>''"

definition cart_c :: response where
  "cart_c = (page ''https://c.io/cart.js''
               [(''content-type'', ''Application/JSON; charset=utf-8'')] [] ''{}'')
              \<lparr>r_json := Inr (JDict [(''token'', JStr ''t''), (''note'', JNull)])\<rparr>"

definition shop_b :: response where
  \<comment> \<open>a cookie and a body marker, no header\<close>
  "shop_b = page ''https://b.io/'' [] [(''_Shopify_s'', ''2'')]
              ''<meta name=Shopify-Digital-Wallet>''"

definition shop_m :: response where
  \<comment> \<open>a body marker only\<close>
  "shop_m = page ''https://m.io/'' [] [(''sid'', ''3'')] ''<meta name=shopify-digital-wallet>''"

definition shop_u :: response where
  \<comment> \<open>no signal, a body whose declared character set does not decode, a working /cart.js\<close>
  "shop_u = (page ''https://u.io/'' [(''Content-Type'', ''text/html; charset=idna'')] [] [])
              \<lparr>r_text := Inl ''decoding with idna codec failed''\<rparr>"

definition cart_u :: response where
  "cart_u = (page ''https://u.io/cart.js'' [(''Content-Type'', ''application/json'')] [] ''{}'')
              \<lparr>r_json := Inr (JDict [(''token'', JStr ''t''), (''items'', JList [])])\<rparr>"

definition shop_v :: response where
  \<comment> \<open>a cookie and a body whose declared character set does not decode\<close>
  "shop_v = (page ''https://v.io/'' [(''Content-Type'', ''text/html; charset=idna'')]
               [(''_shopify_y'', ''1'')] [])
              \<lparr>r_text := Inl ''decoding with idna codec failed''\<rparr>"

definition sample_get :: "history \<Rightarrow> string \<Rightarrow> exn + response" where
  "sample_get hist u =
     (if u = ''https://h.io/'' then Inr shop_h
      else if u = ''https://h.io/cart.js'' then Inr cart_h
      else if u = ''https://c.io/'' then Inr shop_c
      else if u = ''https://c.io/cart.js'' then Inr cart_c
      else if u = ''https://b.io/'' then Inr shop_b
      else if u = ''https://m.io/'' then Inr shop_m
      else if u = ''https://u.io/'' then Inr shop_u
      else if u = ''https://u.io/cart.js'' then Inr cart_u
      else if u = ''https://v.io/'' then Inr shop_v
      else Inl ''connection refused'')"

definition sample_env :: env where
  "sample_env =
     \<lparr>urlparse = sample_urlparse, set_order = (\<lambda>a b. True), re_search = sample_re_search,
      urljoin = sample_urljoin, http_get = sample_get\<rparr>"

text \<open>The same environment with a set that iterates the added element first.\<close>

definition salted_env :: env where
  "salted_env = sample_env\<lparr>set_order := (\<lambda>a b. False)\<rparr>"

section \<open>Properties of the normalizer\<close>

lemma strip_all_space: "\<forall>c\<in>set s. isspace c \<Longrightarrow> strip s = []"
proof -
  assume a: "\<forall>c\<in>set s. isspace c"
  then have d: "dropWhile isspace s = []" by (induction s) simp_all
  show ?thesis unfolding strip_def strip_chars_def d by simp
qed

lemma uniq_loop_distinct:
  "distinct uniq \<Longrightarrow> set uniq \<subseteq> seen \<Longrightarrow> distinct (uniq_loop seen uniq us)"
  by (induction seen uniq us rule: uniq_loop.induct) auto

lemma uniq_loop_length:
  "length (uniq_loop seen uniq us) \<le> length uniq + length us"
  by (induction seen uniq us rule: uniq_loop.induct) auto

lemma set_iter_length: "length (set_iter env a b) \<le> 2"
  by (simp add: set_iter_def)

lemma candidates_length: "length (concat (map host_urls hs)) = 2 * length hs"
  by (induction hs) (simp_all add: host_urls_def)

lemma replace_first_prefix:
  "startswith s old \<Longrightarrow> s \<noteq> [] \<Longrightarrow> replace_first old new s = new @ drop (length old) s"
  by (cases s) simp_all

lemma startswith_length: "startswith s p \<Longrightarrow> length p \<le> length s"
  unfolding startswith_def by (metis length_take min.cobounded1)

lemma other_host_neq: "host \<noteq> [] \<Longrightarrow> other_host host \<noteq> host"
proof (cases "startswith host ''www.''")
  case False
  then show ?thesis by (simp add: other_host_def)
next
  case True
  assume ne: "host \<noteq> []"
  let ?d = "drop (length ''www.'') host"
  have l: "length ''www.'' \<le> length host" by (rule startswith_length [OF True])
  have "?d \<noteq> host"
  proof
    assume e: "?d = host"
    have "length ?d = length host - length ''www.''" by (rule length_drop)
    with e have "length host = length host - length ''www.''" by simp
    with l show False by simp
  qed
  moreover have "other_host host = ?d"
    using True replace_first_prefix [OF True ne, of "[]"] by (simp add: other_host_def)
  ultimately show ?thesis by simp
qed

lemma uniq_four:
  "a \<noteq> b \<Longrightarrow> uniq_loop {} [] (host_urls a @ host_urls b) = host_urls a @ host_urls b"
  by (simp add: host_urls_def)

lemma normalize_cases:
  assumes "normalize_candidates env raw = Inr cs"
  shows "cs = [] \<or> (\<exists>h. h \<noteq> [] \<and> cs = uniq_loop {} [] (concat (map host_urls (set_iter env h (other_host h)))))"
proof (cases "strip raw = []")
  case True
  with assms show ?thesis by (simp add: normalize_candidates_def)
next
  case False
  let ?u = "if \<not> has_scheme (strip raw) then ''https://'' @ strip raw else strip raw"
  show ?thesis
  proof (cases "urlparse env ?u")
    case (Inl e)
    with assms False show ?thesis by (simp add: normalize_candidates_def Let_def)
  next
    case (Inr p)
    show ?thesis
    proof (cases "host_of p = []")
      case True
      with assms False Inr show ?thesis by (simp add: normalize_candidates_def Let_def)
    next
      case hp: False
      with assms False Inr
      have "cs = uniq_loop {} [] (concat (map host_urls (set_iter env (host_of p) (other_host (host_of p)))))"
        by (simp add: normalize_candidates_def Let_def)
      with hp show ?thesis by blast
    qed
  qed
qed

lemma normalize_distinct:
  assumes "normalize_candidates env raw = Inr cs"
  shows "distinct cs"
  using normalize_cases [OF assms] uniq_loop_distinct [of "[]" "{}"] by auto

lemma normalize_length:
  assumes "normalize_candidates env raw = Inr cs"
  shows "length cs \<le> 4"
proof -
  have "length (uniq_loop {} [] (concat (map host_urls (set_iter env a b)))) \<le> 4" for a b
    using uniq_loop_length [of "{}" "[]" "concat (map host_urls (set_iter env a b))"]
          set_iter_length [of env a b]
    by (simp add: candidates_length)
  with normalize_cases [OF assms] show ?thesis by auto
qed

lemma candidates_follow_set_order:
  assumes ne: "strip raw \<noteq> []"
    and up: "urlparse env (if \<not> has_scheme (strip raw) then ''https://'' @ strip raw else strip raw) = Inr p"
    and hp: "host_of p \<noteq> []"
  shows "normalize_candidates env raw =
         Inr (if set_order env (host_of p) (other_host (host_of p))
              then host_urls (host_of p) @ host_urls (other_host (host_of p))
              else host_urls (other_host (host_of p)) @ host_urls (host_of p))"
proof -
  let ?h = "host_of p" and ?o = "other_host (host_of p)"
  have d: "?o \<noteq> ?h" by (rule other_host_neq [OF hp])
  then have d': "?h \<noteq> ?o" by (rule not_sym)
  have "uniq_loop {} [] (concat (map host_urls (set_iter env ?h ?o))) =
        (if set_order env ?h ?o then host_urls ?h @ host_urls ?o else host_urls ?o @ host_urls ?h)"
    using uniq_four [OF d] uniq_four [OF d'] d' by (simp add: set_iter_def)
  with ne up hp show ?thesis by (simp add: normalize_candidates_def Let_def)
qed

section \<open>Properties of the loop over the candidates\<close>

lemma passed_over_loop:
  "passed_over env pre reasons hist = Some (rs', h') \<Longrightarrow>
   candidates_loop env (pre @ post) reasons hist = candidates_loop env post rs' h'"
  by (induction pre arbitrary: reasons hist) (auto split: prod.splits sum.splits)

lemma run_at:
  assumes nc: "normalize_candidates env raw = Inr (pre @ c # post)"
    and po: "passed_over env pre [] [] = Some (reasons, hist)"
    and get: "http_get env hist c = Inr r"
  shows "is_shopify_site env raw =
         Inr (case inspect_response env (hist @ [c]) r reasons of
                (Raised e rs', h') \<Rightarrow> candidates_loop env post (rs' @ [OpenFailed c e]) h'
              | (Returned v, h') \<Rightarrow> (v, h')
              | (FellThrough rs', h') \<Rightarrow> candidates_loop env post rs' h')"
proof -
  have run: "is_shopify_site env raw = Inr (candidates_loop env (c # post) reasons hist)"
    using nc passed_over_loop [OF po, of "c # post"] by (simp add: is_shopify_site_def)
  obtain out h2 where ir: "inspect_response env (hist @ [c]) r reasons = (out, h2)"
    by (metis prod.exhaust)
  have "candidates_loop env (c # post) reasons hist =
        (case (out, h2) of
           (Raised e rs', h') \<Rightarrow> candidates_loop env post (rs' @ [OpenFailed c e]) h'
         | (Returned v, h') \<Rightarrow> (v, h')
         | (FellThrough rs', h') \<Rightarrow> candidates_loop env post rs' h')"
    using get ir by (cases out) (simp_all add: try_candidate_def fetch_def)
  with run ir show ?thesis by simp
qed

lemma headers_nonempty:
  "k \<in> set (map fst (r_headers r)) \<Longrightarrow> startswith (lower k) ''x-shopify-'' \<Longrightarrow>
   shopify_headers r \<noteq> []"
  unfolding shopify_headers_def filter_empty_conv by blast

lemma inspect_header:
  "shopify_headers r \<noteq> [] \<Longrightarrow> try_cart_json env hist (r_url r) = ((ok, msg), h') \<Longrightarrow>
   inspect_response env hist r reasons =
     (Returned (True, High, Some (r_url r),
           reasons @ [HeadersNote (take 5 (shopify_headers r))] @ (if ok then [msg] else [])), h')"
  by (simp add: inspect_response_def Let_def)

lemma inspect_no_header:
  "shopify_headers r = [] \<Longrightarrow> r_text r = Inr txt \<Longrightarrow>
   try_cart_json env hist (r_url r) = ((ok, msg), h') \<Longrightarrow>
   inspect_response env hist r reasons =
     (let rs2 = reasons
            @ (if shopify_cookies r \<noteq> [] then [CookiesNote (take 6 (shopify_cookies r))] else [])
            @ (if check_body_markers env txt \<noteq> []
               then [MarkersNote (check_body_markers env txt)] else [])
      in if ok \<or> (shopify_cookies r \<noteq> [] \<and> check_body_markers env txt \<noteq> [])
         then (Returned (True, High, Some (r_url r), rs2 @ [msg]), h')
         else if shopify_cookies r \<noteq> [] \<or> check_body_markers env txt \<noteq> []
         then (Returned (True, Medium, Some (r_url r), rs2 @ [msg]), h')
         else (FellThrough (rs2 @ [NoSigns (r_url r)]), h'))"
  by (simp add: inspect_response_def Let_def)

lemma inspect_text_raises:
  "shopify_headers r = [] \<Longrightarrow> r_text r = Inl e \<Longrightarrow>
   inspect_response env hist r reasons =
     (Raised e (reasons @ (if shopify_cookies r \<noteq> []
                           then [CookiesNote (take 6 (shopify_cookies r))] else [])), hist)"
  by (simp add: inspect_response_def Let_def)


lemma cart_true:
  "try_cart_json env hist u = ((True, msg), h') \<Longrightarrow> msg = CartOk (urljoin env u ''/cart.js'')"
  by (auto simp: try_cart_json_def Let_def split: sum.splits if_splits)

lemma inspect_returned:
  "inspect_response env hist r reasons = (Returned (ok, conf, url, ev), h') \<Longrightarrow>
   ok \<and> url \<noteq> None \<and> (conf = High \<or> conf = Medium) \<and> (\<exists>t. ev = reasons @ t)"
  by (auto simp: inspect_response_def Let_def split: sum.splits prod.splits if_splits)

lemma inspect_grows:
  "inspect_response env hist r reasons = (Raised e rs', h') \<Longrightarrow> \<exists>t. rs' = reasons @ t"
  "inspect_response env hist r reasons = (FellThrough rs', h') \<Longrightarrow> \<exists>t. rs' = reasons @ t"
  by (auto simp: inspect_response_def Let_def split: sum.splits prod.splits if_splits)

lemma try_candidate_verdict:
  assumes "try_candidate env c reasons hist = (Inl (ok, conf, url, ev), h')"
  shows "ok \<and> url \<noteq> None \<and> (conf = High \<or> conf = Medium)"
proof -
  from assms obtain r h1 where
    "inspect_response env h1 r reasons = (Returned (ok, conf, url, ev), h')"
    by (auto simp: try_candidate_def fetch_def split: sum.splits prod.splits outcome.splits)
  from inspect_returned [OF this] show ?thesis by simp
qed

lemma try_candidate_grows:
  assumes "try_candidate env c reasons hist = (res, h')"
  shows "case res of Inl (ok, conf, url, ev) \<Rightarrow> \<exists>t. ev = reasons @ t
                   | Inr rs' \<Rightarrow> \<exists>t. rs' = reasons @ t"
proof (cases "http_get env hist c")
  case (Inl e)
  with assms show ?thesis by (auto simp: try_candidate_def fetch_def)
next
  case (Inr r)
  obtain out h2 where ir: "inspect_response env (hist @ [c]) r reasons = (out, h2)"
    by (metis prod.exhaust)
  show ?thesis
  proof (cases out)
    case (Raised e rs')
    from inspect_grows(1) [OF ir [unfolded Raised]] obtain t where "rs' = reasons @ t" ..
    with assms Inr ir Raised show ?thesis by (auto simp: try_candidate_def fetch_def)
  next
    case (Returned v)
    obtain ok conf url ev where v: "v = (ok, conf, url, ev)" by (metis prod.exhaust)
    from inspect_returned [OF ir [unfolded Returned v]] have "\<exists>t. ev = reasons @ t" by simp
    with assms Inr ir Returned v show ?thesis by (auto simp: try_candidate_def fetch_def)
  next
    case (FellThrough rs')
    from inspect_grows(2) [OF ir [unfolded FellThrough]] obtain t where "rs' = reasons @ t" ..
    with assms Inr ir FellThrough show ?thesis by (auto simp: try_candidate_def fetch_def)
  qed
qed

lemma loop_consistent:
  "candidates_loop env cs reasons hist = ((ok, conf, url, ev), h) \<Longrightarrow>
   (ok \<longleftrightarrow> url \<noteq> None) \<and> (ok \<longleftrightarrow> conf = High \<or> conf = Medium)
   \<and> (\<not> ok \<longrightarrow> conf = Low \<and> url = None)"
proof (induction cs arbitrary: reasons hist)
  case Nil
  then show ?case by auto
next
  case (Cons c cs)
  show ?case
  proof (cases "try_candidate env c reasons hist")
    case (Pair res h')
    show ?thesis
    proof (cases res)
      case (Inl v)
      with Pair Cons.prems have "try_candidate env c reasons hist = (Inl (ok, conf, url, ev), h')"
        by simp
      from try_candidate_verdict [OF this] show ?thesis by simp
    next
      case (Inr rs')
      with Pair Cons.prems have "candidates_loop env cs rs' h' = ((ok, conf, url, ev), h)"
        by simp
      then show ?thesis by (rule Cons.IH)
    qed
  qed
qed

lemma all_fail_loop:
  "length errs = length cs \<Longrightarrow>
   \<forall>i<length cs. http_get env (hist @ take i cs) (cs ! i) = Inl (errs ! i) \<Longrightarrow>
   candidates_loop env cs reasons hist =
     ((False, Low, None, reasons @ map2 OpenFailed cs errs), hist @ cs)"
proof (induction cs arbitrary: errs reasons hist)
  case Nil
  then show ?case by simp
next
  case (Cons c cs)
  from Cons.prems(1) obtain e es where errs: "errs = e # es" and len: "length es = length cs"
    by (cases errs) auto
  from Cons.prems(2) [rule_format, of 0] errs have h0: "http_get env hist c = Inl e"
    by simp
  have rest: "\<forall>i<length cs. http_get env ((hist @ [c]) @ take i cs) (cs ! i) = Inl (es ! i)"
  proof (intro allI impI)
    fix i assume "i < length cs"
    with Cons.prems(2) [rule_format, of "Suc i"] errs
    show "http_get env ((hist @ [c]) @ take i cs) (cs ! i) = Inl (es ! i)" by simp
  qed
  from Cons.IH [OF len rest, of "reasons @ [OpenFailed c e]"] h0 errs
  show ?case by (simp add: try_candidate_def fetch_def)
qed

lemma loop_evidence_grows:
  "candidates_loop env cs reasons hist = ((ok, conf, url, ev), h) \<Longrightarrow> \<exists>t. ev = reasons @ t"
proof (induction cs arbitrary: reasons hist)
  case Nil
  then show ?case by simp
next
  case (Cons c cs)
  obtain res h' where tc: "try_candidate env c reasons hist = (res, h')"
    by (metis prod.exhaust)
  show ?case
  proof (cases res)
    case (Inl v)
    with tc Cons.prems have "try_candidate env c reasons hist = (Inl (ok, conf, url, ev), h')"
      by simp
    from try_candidate_grows [OF this] show ?thesis by simp
  next
    case (Inr rs')
    with tc Cons.prems have "candidates_loop env cs rs' h' = ((ok, conf, url, ev), h)"
      by simp
    from Cons.IH [OF this] obtain t where t: "ev = rs' @ t" ..
    from try_candidate_grows [OF tc] Inr obtain t' where "rs' = reasons @ t'" by auto
    with t show ?thesis by simp
  qed
qed

section \<open>The claims\<close>

text \<open>
  C1. A candidate that the run probes and whose response has a header with the
  case-insensitive prefix \<open>X-Shopify-\<close> makes the run return Shopify, confidence high,
  with the final URL of that response, whatever its cookies, its body and the outcome of
  the /cart.js check.
\<close>

theorem header_signal_decides_high:
  assumes "normalize_candidates env raw = Inr (pre @ c # post)"
    and "passed_over env pre [] [] = Some (reasons, hist)"
    and "http_get env hist c = Inr r"
    and "k \<in> set (map fst (r_headers r))"
    and "startswith (lower k) ''x-shopify-''"
  shows "\<exists>ev hist'. is_shopify_site env raw = Inr ((True, High, Some (r_url r), ev), hist')"
proof -
  obtain ok msg h' where cart: "try_cart_json env (hist @ [c]) (r_url r) = ((ok, msg), h')"
    by (metis prod.exhaust)
  have "shopify_headers r \<noteq> []" by (rule headers_nonempty [OF assms(4,5)])
  from run_at [OF assms(1-3)] inspect_header [OF this cart, of reasons]
  show ?thesis by simp
qed

text \<open>
  The host www.h.io: two candidates fail, the third shows the header.
\<close>

theorem header_signal_decides_high_witness:
  "normalize_candidates sample_env ''www.h.io''
     = Inr ([''https://www.h.io/'', ''http://www.h.io/''] @ ''https://h.io/'' # [''http://h.io/''])
   \<and> passed_over sample_env [''https://www.h.io/'', ''http://www.h.io/''] [] []
     = Some ([OpenFailed ''https://www.h.io/'' ''connection refused'',
              OpenFailed ''http://www.h.io/'' ''connection refused''],
             [''https://www.h.io/'', ''http://www.h.io/''])
   \<and> http_get sample_env [''https://www.h.io/'', ''http://www.h.io/''] ''https://h.io/'' = Inr shop_h
   \<and> ''X-Shopify-Stage'' \<in> set (map fst (r_headers shop_h))
   \<and> startswith (lower ''X-Shopify-Stage'') ''x-shopify-''
   \<and> (\<exists>ev hist'. is_shopify_site sample_env ''www.h.io''
          = Inr ((True, High, Some ''https://h.io/'', ev), hist'))"
proof -
  have nc: "normalize_candidates sample_env ''www.h.io''
     = Inr ([''https://www.h.io/'', ''http://www.h.io/''] @ ''https://h.io/'' # [''http://h.io/''])"
    by code_simp
  have po: "passed_over sample_env [''https://www.h.io/'', ''http://www.h.io/''] [] []
     = Some ([OpenFailed ''https://www.h.io/'' ''connection refused'',
              OpenFailed ''http://www.h.io/'' ''connection refused''],
             [''https://www.h.io/'', ''http://www.h.io/''])"
    by code_simp
  have get: "http_get sample_env [''https://www.h.io/'', ''http://www.h.io/''] ''https://h.io/'' = Inr shop_h"
    by code_simp
  have k1: "''X-Shopify-Stage'' \<in> set (map fst (r_headers shop_h))"
    by code_simp
  have k2: "startswith (lower ''X-Shopify-Stage'') ''x-shopify-''"
    by code_simp
  have u: "r_url shop_h = ''https://h.io/''" by (simp add: shop_h_def page_def)
  from header_signal_decides_high [OF nc po get k1 k2] nc po get k1 k2 u
  show ?thesis by simp
qed




text \<open>
  C3, as amended. The header check comes first. When it finds a header the run returns
  at once: the evidence of this candidate is the header note, followed by the cart note
  when /cart.js confirmed, and holds no cookie note and no marker note whatever the
  cookies and the body. When it finds none, the cookie check is made and leaves its note
  exactly when a cookie is there. Then the body text is read. If that succeeds, the
  marker check is made and leaves its note exactly when a pattern matches, and the next
  note is that of /cart.js or the one saying that no sign was found. If it raises, the
  marker check is not made and the next note says that the candidate could not be
  opened.
\<close>

theorem checks_after_header_check:
  assumes "normalize_candidates env raw = Inr (pre @ c # post)"
    and "passed_over env pre [] [] = Some (reasons, hist)"
    and "http_get env hist c = Inr r"
  shows "(shopify_headers r \<noteq> [] \<longrightarrow>
           (\<exists>tail hist'.
              is_shopify_site env raw =
                Inr ((True, High, Some (r_url r),
                      reasons @ [HeadersNote (take 5 (shopify_headers r))] @ tail), hist')
              \<and> (tail = [] \<or> tail = [CartOk (urljoin env (r_url r) ''/cart.js'')])))
       \<and> (shopify_headers r = [] \<and> r_text r = Inr txt \<longrightarrow>
           (\<exists>ok conf url x tail hist'.
              is_shopify_site env raw =
                Inr ((ok, conf, url,
                      reasons
                      @ (if shopify_cookies r \<noteq> []
                         then [CookiesNote (take 6 (shopify_cookies r))] else [])
                      @ (if check_body_markers env txt \<noteq> []
                         then [MarkersNote (check_body_markers env txt)] else [])
                      @ x # tail), hist')
              \<and> (x = NoSigns (r_url r)
                   \<or> x = snd (fst (try_cart_json env (hist @ [c]) (r_url r))))))
       \<and> (shopify_headers r = [] \<and> r_text r = Inl e \<longrightarrow>
           (\<exists>ok conf url tail hist'.
              is_shopify_site env raw =
                Inr ((ok, conf, url,
                      reasons
                      @ (if shopify_cookies r \<noteq> []
                         then [CookiesNote (take 6 (shopify_cookies r))] else [])
                      @ OpenFailed c e # tail), hist')))"
    (is "(_ \<longrightarrow> ?A) \<and> (_ \<longrightarrow> ?B) \<and> (_ \<longrightarrow> ?C)")
proof -
  obtain okc msg h' where cart: "try_cart_json env (hist @ [c]) (r_url r) = ((okc, msg), h')"
    by (metis prod.exhaust)
  note run = run_at [OF assms]
  let ?ck = "if shopify_cookies r \<noteq> []
             then [CookiesNote (take 6 (shopify_cookies r))] else []"
  have A: ?A if h: "shopify_headers r \<noteq> []"
  proof -
    let ?tail = "if okc then [msg] else []"
    from run inspect_header [OF h cart, of reasons]
    have "is_shopify_site env raw =
            Inr ((True, High, Some (r_url r),
                  reasons @ [HeadersNote (take 5 (shopify_headers r))] @ ?tail), h')"
      by simp
    moreover have "?tail = [] \<or> ?tail = [CartOk (urljoin env (r_url r) ''/cart.js'')]"
      using cart cart_true [of env "hist @ [c]" "r_url r" msg h'] by auto
    ultimately show ?thesis by blast
  qed
  have B: ?B if h: "shopify_headers r = []" and tx: "r_text r = Inr txt"
  proof -
    let ?rs2 = "reasons @ ?ck
                @ (if check_body_markers env txt \<noteq> []
                   then [MarkersNote (check_body_markers env txt)] else [])"
    note ins = inspect_no_header [OF h tx cart, of reasons]
    have "\<exists>ok conf url x tail hist'.
              is_shopify_site env raw = Inr ((ok, conf, url, ?rs2 @ x # tail), hist')
              \<and> (x = NoSigns (r_url r)
                   \<or> x = snd (fst (try_cart_json env (hist @ [c]) (r_url r))))"
    proof (cases "okc \<or> shopify_cookies r \<noteq> [] \<or> check_body_markers env txt \<noteq> []")
      case True
      with run ins obtain conf where
        "is_shopify_site env raw = Inr ((True, conf, Some (r_url r), ?rs2 @ msg # []), h')"
        by (auto simp: Let_def split: if_splits)
      with cart show ?thesis by (metis fst_conv snd_conv)
    next
      case False
      with ins have "inspect_response env (hist @ [c]) r reasons
                       = (FellThrough (?rs2 @ [NoSigns (r_url r)]), h')"
        by (simp add: Let_def)
      with run have eq: "is_shopify_site env raw
                       = Inr (candidates_loop env post (?rs2 @ [NoSigns (r_url r)]) h')"
        by simp
      obtain ok conf url ev hf where
        res: "candidates_loop env post (?rs2 @ [NoSigns (r_url r)]) h' = ((ok, conf, url, ev), hf)"
        by (metis prod.exhaust)
      from loop_evidence_grows [OF res] obtain t where "ev = (?rs2 @ [NoSigns (r_url r)]) @ t" ..
      then have "ev = ?rs2 @ NoSigns (r_url r) # t" by simp
      with eq res have "is_shopify_site env raw
                       = Inr ((ok, conf, url, ?rs2 @ NoSigns (r_url r) # t), hf)"
        by simp
      then show ?thesis by blast
    qed
    then show ?thesis by (simp only: append_assoc)
  qed
  have C: ?C if h: "shopify_headers r = []" and tx: "r_text r = Inl e"
  proof -
    from run inspect_text_raises [OF h tx, of env "hist @ [c]" reasons]
    have eq: "is_shopify_site env raw
                = Inr (candidates_loop env post ((reasons @ ?ck) @ [OpenFailed c e]) (hist @ [c]))"
      by simp
    obtain ok conf url ev hf where
      res: "candidates_loop env post ((reasons @ ?ck) @ [OpenFailed c e]) (hist @ [c])
              = ((ok, conf, url, ev), hf)"
      by (metis prod.exhaust)
    from loop_evidence_grows [OF res] obtain t where "ev = ((reasons @ ?ck) @ [OpenFailed c e]) @ t" ..
    then have "ev = reasons @ ?ck @ OpenFailed c e # t" by simp
    with eq res have "is_shopify_site env raw
                = Inr ((ok, conf, url, reasons @ ?ck @ OpenFailed c e # t), hf)"
      by simp
    then show ?thesis by blast
  qed
  from A B C show ?thesis by blast
qed

text \<open>
  The host b.io: no header, a cookie and a marker. The host h.io: a header. The host
  v.io: no header, a cookie, and a body text that raises.
\<close>

theorem checks_after_header_check_witness:
  "normalize_candidates sample_env ''b.io''
     = Inr ([] @ ''https://b.io/'' # [''http://b.io/'', ''https://www.b.io/'', ''http://www.b.io/''])
   \<and> passed_over sample_env [] [] [] = Some ([], [])
   \<and> http_get sample_env [] ''https://b.io/'' = Inr shop_b
   \<and> shopify_headers shop_b = []
   \<and> r_text shop_b = Inr ''<meta name=Shopify-Digital-Wallet>''
   \<and> normalize_candidates sample_env ''h.io''
     = Inr ([] @ ''https://h.io/'' # [''http://h.io/'', ''https://www.h.io/'', ''http://www.h.io/''])
   \<and> http_get sample_env [] ''https://h.io/'' = Inr shop_h
   \<and> shopify_headers shop_h \<noteq> []
   \<and> normalize_candidates sample_env ''v.io''
     = Inr ([] @ ''https://v.io/'' # [''http://v.io/'', ''https://www.v.io/'', ''http://www.v.io/''])
   \<and> http_get sample_env [] ''https://v.io/'' = Inr shop_v
   \<and> shopify_headers shop_v = []
   \<and> r_text shop_v = Inl ''decoding with idna codec failed''
   \<and> (\<exists>tail hist'.
         is_shopify_site sample_env ''h.io'' =
           Inr ((True, High, Some (r_url shop_h),
                 [] @ [HeadersNote (take 5 (shopify_headers shop_h))] @ tail), hist')
         \<and> (tail = [] \<or> tail = [CartOk (urljoin sample_env (r_url shop_h) ''/cart.js'')]))
   \<and> (\<exists>ok conf url x tail hist'.
         is_shopify_site sample_env ''b.io'' =
           Inr ((ok, conf, url,
                 [] @ (if shopify_cookies shop_b \<noteq> []
                       then [CookiesNote (take 6 (shopify_cookies shop_b))] else [])
                    @ (if check_body_markers sample_env ''<meta name=Shopify-Digital-Wallet>'' \<noteq> []
                       then [MarkersNote
                               (check_body_markers sample_env ''<meta name=Shopify-Digital-Wallet>'')]
                       else [])
                    @ x # tail), hist')
         \<and> (x = NoSigns (r_url shop_b)
              \<or> x = snd (fst (try_cart_json sample_env ([] @ [''https://b.io/'']) (r_url shop_b)))))
   \<and> (\<exists>ok conf url tail hist'.
         is_shopify_site sample_env ''v.io'' =
           Inr ((ok, conf, url,
                 [] @ (if shopify_cookies shop_v \<noteq> []
                       then [CookiesNote (take 6 (shopify_cookies shop_v))] else [])
                    @ OpenFailed ''https://v.io/'' ''decoding with idna codec failed'' # tail),
                hist'))"
proof -
  have nc: "normalize_candidates sample_env ''b.io''
     = Inr ([] @ ''https://b.io/'' # [''http://b.io/'', ''https://www.b.io/'', ''http://www.b.io/''])"
    by code_simp
  have po: "passed_over sample_env [] [] [] = Some ([], [])" by simp
  have get: "http_get sample_env [] ''https://b.io/'' = Inr shop_b" by code_simp
  have nh: "shopify_headers shop_b = []" by code_simp
  have tx: "r_text shop_b = Inr ''<meta name=Shopify-Digital-Wallet>''" by code_simp
  have nc': "normalize_candidates sample_env ''h.io''
     = Inr ([] @ ''https://h.io/'' # [''http://h.io/'', ''https://www.h.io/'', ''http://www.h.io/''])"
    by code_simp
  have get': "http_get sample_env [] ''https://h.io/'' = Inr shop_h" by code_simp
  have hh: "shopify_headers shop_h \<noteq> []" by code_simp
  have ncv: "normalize_candidates sample_env ''v.io''
     = Inr ([] @ ''https://v.io/'' # [''http://v.io/'', ''https://www.v.io/'', ''http://www.v.io/''])"
    by code_simp
  have getv: "http_get sample_env [] ''https://v.io/'' = Inr shop_v" by code_simp
  have nhv: "shopify_headers shop_v = []" by code_simp
  have txv: "r_text shop_v = Inl ''decoding with idna codec failed''" by code_simp
  note rh = checks_after_header_check [OF nc' po get', THEN conjunct1, THEN mp, OF hh]
  note rb = checks_after_header_check [OF nc po get, THEN conjunct2, THEN conjunct1, THEN mp,
      OF conjI [OF nh tx]]
  note rv = checks_after_header_check [OF ncv po getv, THEN conjunct2, THEN conjunct2, THEN mp,
      OF conjI [OF nhv txv]]
  show ?thesis
    by (intro conjI) (fact nc po get nh tx nc' get' hh ncv getv nhv txv rh rb rv)+
qed

text \<open>
  C3 as stated fails: the response of h.io has a header, a cookie and a marker; the
  run returns with the header note alone.
\<close>

theorem checks_skipped_counterexample:
  "http_get sample_env [] ''https://h.io/'' = Inr shop_h
   \<and> shopify_headers shop_h = [''X-Shopify-Stage'']
   \<and> shopify_cookies shop_h = [''_shopify_y'']
   \<and> r_text shop_h = Inr ''<div id=shopify-digital-wallet>''
   \<and> check_body_markers sample_env ''<div id=shopify-digital-wallet>''
     = [''shopify-digital-wallet'']
   \<and> is_shopify_site sample_env ''h.io''
     = Inr ((True, High, Some ''https://h.io/'', [HeadersNote [''X-Shopify-Stage'']]),
            [''https://h.io/'', ''https://h.io/cart.js''])
   \<and> CookiesNote [''_shopify_y''] \<notin> set [HeadersNote [''X-Shopify-Stage'']]
   \<and> MarkersNote [''shopify-digital-wallet''] \<notin> set [HeadersNote [''X-Shopify-Stage'']]"
  by code_simp

text \<open>
  C4. The claim is that the host derived from the input comes first and its counterpart
  second, in a stable order. The program iterates the set \<open>base_hosts\<close>: for the input
  example.com, a set that iterates the added element first puts www.example.com first,
  and a set that iterates in insertion order puts example.com first.
\<close>

theorem candidates_order_depends_on_set:
  "normalize_candidates salted_env ''example.com''
     = Inr [''https://www.example.com/'', ''http://www.example.com/'',
            ''https://example.com/'', ''http://example.com/'']
   \<and> normalize_candidates sample_env ''example.com''
     = Inr [''https://example.com/'', ''http://example.com/'',
            ''https://www.example.com/'', ''http://www.example.com/'']
   \<and> urlparse salted_env = urlparse sample_env"
  by (simp add: salted_env_def) code_simp




text \<open>
  C6, as amended. When the header signal is present, /cart.js is tried, and its message
  is appended to the evidence only when the check succeeded; the message of a failed
  check is dropped.
\<close>

theorem header_cart_note_only_on_success:
  assumes "normalize_candidates env raw = Inr (pre @ c # post)"
    and "passed_over env pre [] [] = Some (reasons, hist)"
    and "http_get env hist c = Inr r"
    and "shopify_headers r \<noteq> []"
    and "try_cart_json env (hist @ [c]) (r_url r) = ((ok, msg), hist')"
  shows "is_shopify_site env raw =
         Inr ((True, High, Some (r_url r),
               reasons @ [HeadersNote (take 5 (shopify_headers r))] @ (if ok then [msg] else [])),
              hist')"
  using run_at [OF assms(1-3)] inspect_header [OF assms(4,5), of reasons] by simp

text \<open>
  The host h.io, whose /cart.js answers 404.
\<close>

theorem header_cart_note_only_on_success_witness:
  "normalize_candidates sample_env ''h.io''
     = Inr ([] @ ''https://h.io/'' # [''http://h.io/'', ''https://www.h.io/'', ''http://www.h.io/''])
   \<and> passed_over sample_env [] [] [] = Some ([], [])
   \<and> http_get sample_env [] ''https://h.io/'' = Inr shop_h
   \<and> shopify_headers shop_h \<noteq> []
   \<and> try_cart_json sample_env ([] @ [''https://h.io/'']) (r_url shop_h)
     = ((False, CartUnconfirmed 404 ''text/html''), [''https://h.io/'', ''https://h.io/cart.js''])
   \<and> is_shopify_site sample_env ''h.io''
     = Inr ((True, High, Some (r_url shop_h),
             [] @ [HeadersNote (take 5 (shopify_headers shop_h))]
                @ (if False then [CartUnconfirmed 404 ''text/html''] else [])),
            [''https://h.io/'', ''https://h.io/cart.js''])"
proof -
  have nc: "normalize_candidates sample_env ''h.io''
     = Inr ([] @ ''https://h.io/'' # [''http://h.io/'', ''https://www.h.io/'', ''http://www.h.io/''])"
    by code_simp
  have po: "passed_over sample_env [] [] [] = Some ([], [])" by simp
  have get: "http_get sample_env [] ''https://h.io/'' = Inr shop_h" by code_simp
  have hd: "shopify_headers shop_h \<noteq> []" by code_simp
  have cart: "try_cart_json sample_env ([] @ [''https://h.io/'']) (r_url shop_h)
     = ((False, CartUnconfirmed 404 ''text/html''), [''https://h.io/'', ''https://h.io/cart.js''])"
    by code_simp
  from header_cart_note_only_on_success [OF nc po get hd cart] nc po get hd cart
  show ?thesis by blast
qed

text \<open>
  C6 as stated fails: on h.io the header is present, /cart.js fails with its message,
  and the evidence of the run does not hold that message.
\<close>

theorem header_cart_note_counterexample:
  "http_get sample_env [] ''https://h.io/'' = Inr shop_h
   \<and> shopify_headers shop_h \<noteq> []
   \<and> try_cart_json sample_env [''https://h.io/''] (r_url shop_h)
     = ((False, CartUnconfirmed 404 ''text/html''), [''https://h.io/'', ''https://h.io/cart.js''])
   \<and> is_shopify_site sample_env ''h.io''
     = Inr ((True, High, Some ''https://h.io/'', [HeadersNote [''X-Shopify-Stage'']]),
            [''https://h.io/'', ''https://h.io/cart.js''])
   \<and> CartUnconfirmed 404 ''text/html'' \<notin> set [HeadersNote [''X-Shopify-Stage'']]"
  by code_simp

text \<open>
  C7. If the probe of every candidate raises, the run returns not Shopify, confidence
  low, no URL; the evidence is one failure note per candidate, in order; the requests
  made are the candidates and nothing else; and the run returns a verdict, not an
  exception.
\<close>

theorem all_probes_fail:
  assumes "normalize_candidates env raw = Inr cs"
    and "map (\<lambda>i. http_get env (take i cs) (cs ! i)) [0..<length cs] = map Inl errs"
  shows "is_shopify_site env raw = Inr ((False, Low, None, map2 OpenFailed cs errs), cs)"
proof -
  from assms(2) have "length (map (\<lambda>i. http_get env (take i cs) (cs ! i)) [0..<length cs])
                      = length (map Inl errs :: (exn + response) list)"
    by simp
  then have len: "length errs = length cs" by simp
  have fails: "\<forall>i<length cs. http_get env ([] @ take i cs) (cs ! i) = Inl (errs ! i)"
  proof (intro allI impI)
    fix i assume i: "i < length cs"
    then have "map (\<lambda>i. http_get env (take i cs) (cs ! i)) [0..<length cs] ! i
               = http_get env (take i cs) (cs ! i)"
      by simp
    moreover from i len have "(map Inl errs :: (exn + response) list) ! i = Inl (errs ! i)"
      by simp
    ultimately show "http_get env ([] @ take i cs) (cs ! i) = Inl (errs ! i)"
      using assms(2) by simp
  qed
  from all_fail_loop [OF len fails, of "[]"] assms(1) show ?thesis
    by (simp add: is_shopify_site_def)
qed

text \<open>
  The host x.io, which nothing answers.
\<close>

theorem all_probes_fail_witness:
  "normalize_candidates sample_env ''x.io''
     = Inr [''https://x.io/'', ''http://x.io/'', ''https://www.x.io/'', ''http://www.x.io/'']
   \<and> map (\<lambda>i. http_get sample_env
                 (take i [''https://x.io/'', ''http://x.io/'', ''https://www.x.io/'', ''http://www.x.io/''])
                 ([''https://x.io/'', ''http://x.io/'', ''https://www.x.io/'', ''http://www.x.io/''] ! i))
         [0..<length [''https://x.io/'', ''http://x.io/'', ''https://www.x.io/'', ''http://www.x.io/'']]
     = map Inl (replicate 4 ''connection refused'')
   \<and> is_shopify_site sample_env ''x.io''
     = Inr ((False, Low, None,
             [OpenFailed ''https://x.io/'' ''connection refused'',
              OpenFailed ''http://x.io/'' ''connection refused'',
              OpenFailed ''https://www.x.io/'' ''connection refused'',
              OpenFailed ''http://www.x.io/'' ''connection refused'']),
            [''https://x.io/'', ''http://x.io/'', ''https://www.x.io/'', ''http://www.x.io/''])"
proof -
  let ?cs = "[''https://x.io/'', ''http://x.io/'', ''https://www.x.io/'', ''http://www.x.io/'']"
  have nc: "normalize_candidates sample_env ''x.io'' = Inr ?cs" by code_simp
  have fl: "map (\<lambda>i. http_get sample_env (take i ?cs) (?cs ! i)) [0..<length ?cs]
            = map Inl (replicate 4 ''connection refused'')"
    by code_simp
  have ev: "map2 OpenFailed ?cs (replicate 4 ''connection refused'')
            = [OpenFailed ''https://x.io/'' ''connection refused'',
               OpenFailed ''http://x.io/'' ''connection refused'',
               OpenFailed ''https://www.x.io/'' ''connection refused'',
               OpenFailed ''http://www.x.io/'' ''connection refused'']"
    by code_simp
  from all_probes_fail [OF nc fl] have
    "is_shopify_site sample_env ''x.io''
       = Inr ((False, Low, None, map2 OpenFailed ?cs (replicate 4 ''connection refused'')), ?cs)" .
  with ev nc fl show ?thesis by (simp only:) 
qed

text \<open>
  C8. An input that is empty or made of whitespace only gives no candidate, and the run
  returns not Shopify, confidence low, no URL, no evidence, with no request made.
\<close>

theorem blank_input_no_request:
  assumes "\<forall>c\<in>set raw. isspace c"
  shows "normalize_candidates env raw = Inr []
       \<and> is_shopify_site env raw = Inr ((False, Low, None, []), [])"
proof -
  have "strip raw = []" by (rule strip_all_space [OF assms])
  then have "normalize_candidates env raw = Inr []"
    by (simp add: normalize_candidates_def)
  then show ?thesis by (simp add: is_shopify_site_def)
qed

text \<open>
  A space, a tab, a newline and a space; and the empty string.
\<close>

theorem blank_input_no_request_witness:
  "list_all isspace [CHR '' '', CHR 0x09, CHR 0x0A, CHR '' '']
   \<and> normalize_candidates sample_env [CHR '' '', CHR 0x09, CHR 0x0A, CHR '' ''] = Inr []
   \<and> is_shopify_site sample_env [CHR '' '', CHR 0x09, CHR 0x0A, CHR '' '']
     = Inr ((False, Low, None, []), [])
   \<and> normalize_candidates sample_env [] = Inr []
   \<and> is_shopify_site sample_env [] = Inr ((False, Low, None, []), [])"
proof -
  have la: "list_all isspace [CHR '' '', CHR 0x09, CHR 0x0A, CHR '' '']"
    by (simp add: isspace_def)
  then have h: "\<forall>c\<in>set [CHR '' '', CHR 0x09, CHR 0x0A, CHR '' '']. isspace c"
    by (simp only: list_all_iff)
  have e: "\<forall>c\<in>set []. isspace c" by simp
  from blank_input_no_request [OF h, of sample_env] blank_input_no_request [OF e, of sample_env] la
  show ?thesis by blast
qed

text \<open>
  C9. The list that the normalizer returns has no duplicate and at most four entries.
\<close>

theorem candidates_distinct_at_most_four:
  assumes "normalize_candidates env raw = Inr cs"
  shows "distinct cs \<and> length cs \<le> 4"
  using normalize_distinct [OF assms] normalize_length [OF assms] by simp

text \<open>
  A full URL with a path and a query.
\<close>

theorem candidates_distinct_at_most_four_witness:
  "normalize_candidates sample_env ''https://WWW.h.io/a/b?c=d''
     = Inr [''https://WWW.h.io/'', ''http://WWW.h.io/'', ''https://www.WWW.h.io/'', ''http://www.WWW.h.io/'']
   \<and> distinct [''https://WWW.h.io/'', ''http://WWW.h.io/'', ''https://www.WWW.h.io/'', ''http://www.WWW.h.io/'']
   \<and> length [''https://WWW.h.io/'', ''http://WWW.h.io/'', ''https://www.WWW.h.io/'', ''http://www.WWW.h.io/''] \<le> 4"
proof -
  have nc: "normalize_candidates sample_env ''https://WWW.h.io/a/b?c=d''
     = Inr [''https://WWW.h.io/'', ''http://WWW.h.io/'', ''https://www.WWW.h.io/'', ''http://www.WWW.h.io/'']"
    by code_simp
  from candidates_distinct_at_most_four [OF nc] nc show ?thesis by blast
qed

text \<open>
  C10. In every verdict that the run returns, Shopify is true exactly when there is a
  resolved URL, and exactly when the confidence is high or medium; a negative verdict
  has confidence low and no URL.
\<close>

theorem verdict_consistent:
  assumes "is_shopify_site env raw = Inr ((ok, conf, url, ev), hist)"
  shows "(ok \<longleftrightarrow> url \<noteq> None) \<and> (ok \<longleftrightarrow> conf = High \<or> conf = Medium)
       \<and> (\<not> ok \<longrightarrow> conf = Low \<and> url = None)"
proof (cases "normalize_candidates env raw")
  case (Inl e)
  with assms show ?thesis by (simp add: is_shopify_site_def)
next
  case (Inr cs)
  with assms have "candidates_loop env cs [] [] = ((ok, conf, url, ev), hist)"
    by (simp add: is_shopify_site_def)
  then show ?thesis by (rule loop_consistent)
qed

text \<open>
  A positive run (m.io) and a negative one (no host in the input).
\<close>

theorem verdict_consistent_witness:
  "is_shopify_site sample_env ''m.io''
     = Inr ((True, Medium, Some ''https://m.io/'',
             [MarkersNote [''shopify-digital-wallet''], CartError ''connection refused'']),
            [''https://m.io/'', ''https://m.io/cart.js''])
   \<and> is_shopify_site sample_env ''https://'' = Inr ((False, Low, None, []), [])
   \<and> (True \<longleftrightarrow> Some ''https://m.io/'' \<noteq> None)
   \<and> (True \<longleftrightarrow> Medium = High \<or> Medium = Medium)
   \<and> (False \<longleftrightarrow> (None :: string option) \<noteq> None)
   \<and> (False \<longleftrightarrow> Low = High \<or> Low = Medium)"
proof -
  have run: "is_shopify_site sample_env ''m.io''
     = Inr ((True, Medium, Some ''https://m.io/'',
             [MarkersNote [''shopify-digital-wallet''], CartError ''connection refused'']),
            [''https://m.io/'', ''https://m.io/cart.js''])"
    by code_simp
  have neg: "is_shopify_site sample_env ''https://'' = Inr ((False, Low, None, []), [])"
    by code_simp
  from verdict_consistent [OF run] verdict_consistent [OF neg] run neg
  show ?thesis by simp
qed

end
